theory Spec2Isabelle
  imports Main
begin

section \<open>Values, errors and observables\<close>

text \<open>
  The link shortener is a NestJS application: a controller (\<^verbatim>\<open>app.controller.ts\<close>), a
  service (\<^verbatim>\<open>app.service.ts\<close>) and a repository interface (\<^verbatim>\<open>app.repository.ts\<close>) with two
  implementations, an in-process \<^verbatim>\<open>Map\<close> (\<^verbatim>\<open>app.repository.hashmap.ts\<close>) and a Redis client
  (\<^verbatim>\<open>app.repository.redis.ts\<close>).

  The values that travel through the code are strings and the two JavaScript "nothing"
  values: \<^verbatim>\<open>Map.prototype.get\<close> answers \<^verbatim>\<open>undefined\<close> for a missing key, the Redis client's
  \<^verbatim>\<open>get\<close> answers \<^verbatim>\<open>null\<close>.
\<close>

datatype jsval = Undefined | Null | Str string

text \<open>A thrown value, or the reason of a rejected promise.\<close>

datatype js_error = Error string

text \<open>
  Every observable of the source delivers at most one notification before it completes:
  \<^verbatim>\<open>of(x)\<close> emits \<^verbatim>\<open>x\<close>, \<^verbatim>\<open>from(promise)\<close> emits the value the promise resolves to, or
  errors with the reason it rejects with. An observable that is subscribed to and runs to
  its end is therefore modelled by its outcome: \<open>Inr v\<close> for the emitted value, \<open>Inl e\<close>
  for the error. Each operation below is one call followed by its subscription, run
  without interleaving with other requests.
\<close>

type_synonym 'a observable = "js_error + 'a"

text \<open>\<^verbatim>\<open>.pipe(map(f))\<close>: the emitted value is transformed, an error passes through untouched.\<close>

definition pipe_map :: "('a \<Rightarrow> 'b) \<Rightarrow> 'a observable \<Rightarrow> 'b observable" where
  "pipe_map f obs = (case obs of Inl e \<Rightarrow> Inl e | Inr v \<Rightarrow> Inr (f v))"

section \<open>The repository interface\<close>

text \<open>
  \<^verbatim>\<open>interface AppRepository { put(hash, url): Observable<string>; get(hash): Observable<string> }\<close>.
  An implementation owns a state of type \<open>'s\<close>; each method takes the state and returns
  the outcome with the state it leaves.
\<close>

record 's AppRepository =
  put :: "string \<Rightarrow> string \<Rightarrow> 's \<Rightarrow> jsval observable \<times> 's"
  get :: "string \<Rightarrow> 's \<Rightarrow> jsval observable \<times> 's"

section \<open>The volatile backend: \<^verbatim>\<open>AppRepositoryHashmap\<close>\<close>

type_synonym hashMap = "string \<rightharpoonup> string"

text \<open>The constructor: \<^verbatim>\<open>this.hashMap = new Map<string, string>()\<close>.\<close>

definition new_hashMap :: hashMap where
  "new_hashMap = Map.empty"

text \<open>\<^verbatim>\<open>Map.prototype.get\<close>: the value of the key, \<^verbatim>\<open>undefined\<close> when the key is not there.\<close>

definition Map_get :: "hashMap \<Rightarrow> string \<Rightarrow> jsval" where
  "Map_get m k = (case m k of None \<Rightarrow> Undefined | Some v \<Rightarrow> Str v)"

text \<open>\<^verbatim>\<open>Map.prototype.set\<close>: writes the entry and answers the map itself.\<close>

definition Map_set :: "hashMap \<Rightarrow> string \<Rightarrow> string \<Rightarrow> hashMap" where
  "Map_set m k v = m(k \<mapsto> v)"

text \<open>\<^verbatim>\<open>get(hash) { return of(this.hashMap.get(hash)); }\<close>\<close>

definition hashmap_get :: "string \<Rightarrow> hashMap \<Rightarrow> jsval observable \<times> hashMap" where
  "hashmap_get hash m = (Inr (Map_get m hash), m)"

text \<open>\<^verbatim>\<open>put(hash, url) { return of(this.hashMap.set(hash, url).get(hash)); }\<close>\<close>

definition hashmap_put :: "string \<Rightarrow> string \<Rightarrow> hashMap \<Rightarrow> jsval observable \<times> hashMap" where
  "hashmap_put hash url m = (let m' = Map_set m hash url in (Inr (Map_get m' hash), m'))"

definition AppRepositoryHashmap :: "hashMap AppRepository" where
  "AppRepositoryHashmap = \<lparr>put = hashmap_put, get = hashmap_get\<rparr>"

section \<open>The durable backend: \<^verbatim>\<open>AppRepositoryRedis\<close>\<close>

text \<open>
  The Redis client and the server behind it are not code of this repository. They are
  modelled as far as the two commands the repository sends need: a keyspace of string
  values, a record of the commands sent, and a schedule that says, for each command in
  turn, whether its promise rejects (with which reason) or the command reaches the
  server. A command whose schedule entry is \<open>None\<close>, or for which the schedule has run
  out, is answered by the server.
\<close>

datatype redis_command = SET string string | GET string

record redisClient =
  keyspace :: "string \<rightharpoonup> string"
  faults :: "js_error option list"
  issued :: "redis_command list"

text \<open>Sending one command: it is recorded, and the head of the schedule decides its fate.\<close>

definition send :: "redis_command \<Rightarrow> redisClient \<Rightarrow> js_error option \<times> redisClient" where
  "send cmd c =
     (case faults c of
        [] \<Rightarrow> (None, c\<lparr>issued := issued c @ [cmd]\<rparr>)
      | f # fs \<Rightarrow> (f, c\<lparr>faults := fs, issued := issued c @ [cmd]\<rparr>))"

text \<open>\<^verbatim>\<open>redisClient.set(key, value)\<close>: resolves to \<^verbatim>\<open>'OK'\<close> once the server has stored the value.\<close>

definition redisClient_set :: "string \<Rightarrow> string \<Rightarrow> redisClient \<Rightarrow> jsval observable \<times> redisClient" where
  "redisClient_set k v c =
     (case send (SET k v) c of
        (Some e, c') \<Rightarrow> (Inl e, c')
      | (None, c') \<Rightarrow> (Inr (Str ''OK''), c'\<lparr>keyspace := (keyspace c')(k \<mapsto> v)\<rparr>))"

text \<open>\<^verbatim>\<open>redisClient.get(key)\<close>: resolves to the stored string, to \<^verbatim>\<open>null\<close> for a missing key.\<close>

definition bulk_reply :: "string option \<Rightarrow> jsval" where
  "bulk_reply r = (case r of None \<Rightarrow> Null | Some v \<Rightarrow> Str v)"

definition redisClient_get :: "string \<Rightarrow> redisClient \<Rightarrow> jsval observable \<times> redisClient" where
  "redisClient_get k c =
     (case send (GET k) c of
        (Some e, c') \<Rightarrow> (Inl e, c')
      | (None, c') \<Rightarrow> (Inr (bulk_reply (keyspace c' k)), c'))"

text \<open>\<^verbatim>\<open>get(hash) { return from(this.redisClient.get(hash)); }\<close>\<close>

definition redis_get :: "string \<Rightarrow> redisClient \<Rightarrow> jsval observable \<times> redisClient" where
  "redis_get hash c = redisClient_get hash c"

text \<open>
  \<^verbatim>\<open>put(hash, url) { return from(this.redisClient.set(hash, url)).pipe(
         mergeMap(() => from(this.redisClient.get(hash)))); }\<close>
  The \<^verbatim>\<open>mergeMap\<close> callback runs when the \<^verbatim>\<open>set\<close> promise has resolved; a rejection of
  \<^verbatim>\<open>set\<close> skips it and becomes the error of the observable.
\<close>

definition redis_put :: "string \<Rightarrow> string \<Rightarrow> redisClient \<Rightarrow> jsval observable \<times> redisClient" where
  "redis_put hash url c =
     (case redisClient_set hash url c of
        (Inl e, c') \<Rightarrow> (Inl e, c')
      | (Inr ok, c') \<Rightarrow> redisClient_get hash c')"

definition AppRepositoryRedis :: "redisClient AppRepository" where
  "AppRepositoryRedis = \<lparr>put = redis_put, get = redis_get\<rparr>"

text \<open>The next \<open>n\<close> commands are answered by the server.\<close>

definition answered :: "nat \<Rightarrow> redisClient \<Rightarrow> bool" where
  "answered n c = list_all (\<lambda>f. f = None) (take n (faults c))"

section \<open>The service: \<^verbatim>\<open>AppService\<close>\<close>

text \<open>
  \<^verbatim>\<open>Math.random()\<close> is the one other effect of the service. The runtime is modelled by the
  texts that successive evaluations of \<^verbatim>\<open>Math.random().toString(36)\<close> produce (\<open>rng\<close>) and
  by the number of draws made so far (\<open>draws\<close>); \<open>backend\<close> is the state of the injected
  repository.
\<close>

record 's world =
  rng :: "nat \<Rightarrow> string"
  draws :: nat
  backend :: 's

definition Math_random_toString36 :: "'s world \<Rightarrow> string \<times> 's world" where
  "Math_random_toString36 w = (rng w (draws w), w\<lparr>draws := Suc (draws w)\<rparr>)"

text \<open>\<^verbatim>\<open>String.prototype.slice(n)\<close> for \<open>n \<ge> 0\<close>: the text from index \<open>n\<close> on, empty when there is none.\<close>

definition slice :: "nat \<Rightarrow> string \<Rightarrow> string" where
  "slice n s = drop n s"

text \<open>The hash generator, the first line of \<^verbatim>\<open>shorten\<close>: \<^verbatim>\<open>Math.random().toString(36).slice(7)\<close>.\<close>

definition generate_hash :: "'s world \<Rightarrow> string \<times> 's world" where
  "generate_hash w = (let (text, w1) = Math_random_toString36 w in (slice 7 text, w1))"

text \<open>
  \<^verbatim>\<open>shorten(url) {
    const hash = Math.random().toString(36).slice(7);
    return this.appRepository.put(hash, url).pipe(map(() => hash)); }\<close>
\<close>

definition service_shorten :: "'s AppRepository \<Rightarrow> string \<Rightarrow> 's world \<Rightarrow> string observable \<times> 's world" where
  "service_shorten repo url w =
     (let (hash, w1) = generate_hash w;
          (res, s') = put repo hash url (backend w1)
      in (pipe_map (\<lambda>_. hash) res, w1\<lparr>backend := s'\<rparr>))"

text \<open>\<^verbatim>\<open>retrieve(hash) { return this.appRepository.get(hash); }\<close>\<close>

definition service_retrieve :: "'s AppRepository \<Rightarrow> string \<Rightarrow> 's world \<Rightarrow> jsval observable \<times> 's world" where
  "service_retrieve repo hash w =
     (let (res, s') = get repo hash (backend w) in (res, w\<lparr>backend := s'\<rparr>))"

text \<open>
  The pipeline of \<^verbatim>\<open>app.service.spec.ts\<close>:
  \<^verbatim>\<open>appService.shorten(url).pipe(mergeMap((hash) => appService.retrieve(hash)))\<close>.
\<close>

definition shorten_then_retrieve :: "'s AppRepository \<Rightarrow> string \<Rightarrow> 's world \<Rightarrow> jsval observable \<times> 's world" where
  "shorten_then_retrieve repo url w =
     (case service_shorten repo url w of
        (Inl e, w') \<Rightarrow> (Inl e, w')
      | (Inr hash, w') \<Rightarrow> service_retrieve repo hash w')"

section \<open>The controller: \<^verbatim>\<open>AppController\<close>\<close>

text \<open>
  \<^verbatim>\<open>interface ShortenResponse { hash: string }\<close>,
  \<^verbatim>\<open>interface ErrorResponse { error: string; code: number }\<close>; the handler answers either.
\<close>

datatype shorten_reply =
  ShortenResponse string
| ErrorResponse string int

text \<open>The object \<^verbatim>\<open>{ url }\<close> that the \<^verbatim>\<open>@Redirect()\<close> handler answers.\<close>

datatype redirect_reply = RedirectResponse jsval

definition no_url_message :: string where
  "no_url_message =
     ''No url provided. Please provide in the body. E.g. {'' @ [CHR 0x27] @ ''url'' @ [CHR 0x27]
       @ '':'' @ [CHR 0x27] @ ''https://google.com'' @ [CHR 0x27] @ ''}''"

text \<open>
  \<^verbatim>\<open>!url\<close>: of the values the body field can hold here, \<^verbatim>\<open>undefined\<close> (no field), \<^verbatim>\<open>null\<close>
  and the empty string are falsy; every other string is truthy.
\<close>

fun falsy :: "jsval \<Rightarrow> bool" where
  "falsy Undefined = True"
| "falsy Null = True"
| "falsy (Str s) = (s = [])"

text \<open>
  \<^verbatim>\<open>shorten(@Body('url') url) {
    if (!url) { return of({ error: `No url provided. ...`, code: 400 }); }
    return this.appService.shorten(url).pipe(map((hash) => ({ hash }))); }\<close>
  The first equation is the case of a string, where \<^verbatim>\<open>!url\<close> has to be tested; the second
  covers \<^verbatim>\<open>undefined\<close> and \<^verbatim>\<open>null\<close>, which are falsy.
\<close>

fun controller_shorten :: "'s AppRepository \<Rightarrow> jsval \<Rightarrow> 's world \<Rightarrow> shorten_reply observable \<times> 's world" where
  "controller_shorten repo (Str u) w =
     (if falsy (Str u) then (Inr (ErrorResponse no_url_message 400), w)
      else (let (res, w') = service_shorten repo u w in (pipe_map ShortenResponse res, w')))"
| "controller_shorten repo v w = (Inr (ErrorResponse no_url_message 400), w)"

text \<open>
  \<^verbatim>\<open>retrieveAndRedirect(@Param('hash') hash) {
    return this.appService.retrieve(hash).pipe(map((url) => ({ url }))); }\<close>
\<close>

definition retrieveAndRedirect :: "'s AppRepository \<Rightarrow> string \<Rightarrow> 's world \<Rightarrow> redirect_reply observable \<times> 's world" where
  "retrieveAndRedirect repo hash w =
     (let (res, w') = service_retrieve repo hash w in (pipe_map RedirectResponse res, w'))"

section \<open>Instrumentation\<close>

text \<open>
  A repository wrapped so that every call of \<open>put\<close> and \<open>get\<close> is written down, oldest
  first, before it is passed on. The wrapper changes no outcome; it makes the number and
  order of the calls a part of the state.
\<close>

datatype repo_call = PutCall string string | GetCall string

definition recording :: "'s AppRepository \<Rightarrow> (repo_call list \<times> 's) AppRepository" where
  "recording repo =
     \<lparr>put = (\<lambda>h u (calls, s). let (res, s') = put repo h u s in (res, (calls @ [PutCall h u], s'))),
      get = (\<lambda>h (calls, s). let (res, s') = get repo h s in (res, (calls @ [GetCall h], s')))\<rparr>"

text \<open>The state a repository is in after a sequence of \<open>put\<close> calls, whatever they answered.\<close>

fun after_puts :: "'s AppRepository \<Rightarrow> (string \<times> string) list \<Rightarrow> 's \<Rightarrow> 's" where
  "after_puts repo [] s = s"
| "after_puts repo ((h, u) # ws) s = after_puts repo ws (snd (put repo h u s))"

section \<open>The text of a random number\<close>

text \<open>
  \<^verbatim>\<open>Math.random()\<close> answers a number in \<open>[0, 1)\<close>; \<^verbatim>\<open>toString(36)\<close> writes it in radix 36 with
  the digits \<^verbatim>\<open>0-9a-z\<close>: the text \<^verbatim>\<open>0\<close> for zero, and otherwise \<^verbatim>\<open>0.\<close> followed by at least
  one digit. The number of digits depends on the number drawn.
\<close>

definition base36_digits :: string where
  "base36_digits = ''0123456789abcdefghijklmnopqrstuvwxyz''"

text \<open>
  A runtime whose first draws give the listed texts, in order, and every later draw the
  text \<open>d\<close>.
\<close>

fun scripted :: "string list \<Rightarrow> string \<Rightarrow> nat \<Rightarrow> string" where
  "scripted [] d n = d"
| "scripted (t # ts) d 0 = t"
| "scripted (t # ts) d (Suc n) = scripted ts d n"

definition base36_text :: "string \<Rightarrow> bool" where
  "base36_text s =
     (s = ''0'' \<or> (take 2 s = ''0.'' \<and> drop 2 s \<noteq> [] \<and> list_all (\<lambda>c. c \<in> set base36_digits) (drop 2 s)))"

section \<open>Basic facts about the model\<close>

lemma pipe_map_Inl: "pipe_map f (Inl e) = Inl e"
  by (simp add: pipe_map_def)

lemma pipe_map_Inr: "pipe_map f (Inr v) = Inr (f v)"
  by (simp add: pipe_map_def)

lemma generate_hash_eq:
  "generate_hash w = (slice 7 (rng w (draws w)), w\<lparr>draws := Suc (draws w)\<rparr>)"
  by (simp add: generate_hash_def Math_random_toString36_def)

lemma service_shorten_eq:
  "service_shorten repo u w =
     (pipe_map (\<lambda>_. slice 7 (rng w (draws w))) (fst (put repo (slice 7 (rng w (draws w))) u (backend w))),
      w\<lparr>draws := Suc (draws w), backend := snd (put repo (slice 7 (rng w (draws w))) u (backend w))\<rparr>)"
  by (simp add: service_shorten_def generate_hash_eq split: prod.split)

lemma service_retrieve_eq:
  "service_retrieve repo h w = (fst (get repo h (backend w)), w\<lparr>backend := snd (get repo h (backend w))\<rparr>)"
  by (simp add: service_retrieve_def split: prod.split)

lemma hashmap_put_eq: "hashmap_put h u m = (Inr (Str u), m(h \<mapsto> u))"
  by (simp add: hashmap_put_def Map_set_def Map_get_def)

lemma send_answered:
  "answered (Suc n) c \<Longrightarrow> send cmd c = (None, c\<lparr>faults := tl (faults c), issued := issued c @ [cmd]\<rparr>)"
  by (cases "faults c") (simp_all add: send_def answered_def)

lemma redisClient_set_answered:
  "answered (Suc n) c \<Longrightarrow>
     redisClient_set k v c =
       (Inr (Str ''OK''),
        c\<lparr>keyspace := (keyspace c)(k \<mapsto> v), faults := tl (faults c), issued := issued c @ [SET k v]\<rparr>)"
  by (simp add: redisClient_set_def send_answered)

lemma redisClient_get_answered:
  "answered (Suc n) c \<Longrightarrow>
     redisClient_get k c =
       (Inr (bulk_reply (keyspace c k)), c\<lparr>faults := tl (faults c), issued := issued c @ [GET k]\<rparr>)"
  by (simp add: redisClient_get_def send_answered)

lemma answered_after_set:
  "answered (Suc n) c \<Longrightarrow> answered n (snd (redisClient_set k v c))"
  by (cases "faults c") (simp_all add: redisClient_set_answered answered_def)

lemma answered_after_get:
  "answered (Suc n) c \<Longrightarrow> answered n (snd (redisClient_get k c))"
  by (cases "faults c") (simp_all add: redisClient_get_answered answered_def)

lemma redis_put_answered:
  assumes "answered (Suc (Suc n)) c"
  shows "fst (redis_put k v c) = Inr (Str v)"
    and "keyspace (snd (redis_put k v c)) = (keyspace c)(k \<mapsto> v)"
    and "answered n (snd (redis_put k v c))"
    and "issued (snd (redis_put k v c)) = issued c @ [SET k v, GET k]"
proof -
  let ?c1 = "snd (redisClient_set k v c)"
  have s: "redisClient_set k v c = (Inr (Str ''OK''), ?c1)"
    using assms by (simp add: redisClient_set_answered)
  have a1: "answered (Suc n) ?c1"
    using assms by (rule answered_after_set)
  have k1: "keyspace ?c1 = (keyspace c)(k \<mapsto> v)" and i1: "issued ?c1 = issued c @ [SET k v]"
    using assms by (simp_all add: redisClient_set_answered)
  have p: "redis_put k v c = redisClient_get k ?c1"
    by (subst redis_put_def, subst s) simp
  show "fst (redis_put k v c) = Inr (Str v)"
    using a1 k1 by (simp add: p redisClient_get_answered bulk_reply_def)
  show "keyspace (snd (redis_put k v c)) = (keyspace c)(k \<mapsto> v)"
    using a1 k1 by (simp add: p redisClient_get_answered)
  show "answered n (snd (redis_put k v c))"
    using a1 by (simp add: p answered_after_get)
  show "issued (snd (redis_put k v c)) = issued c @ [SET k v, GET k]"
    using a1 i1 by (simp add: p redisClient_get_answered)
qed

lemma redis_get_answered:
  "answered (Suc n) c \<Longrightarrow> fst (redis_get k c) = Inr (bulk_reply (keyspace c k))"
  by (simp add: redis_get_def redisClient_get_answered)

lemma shorten_then_retrieve_hashmap:
  "fst (shorten_then_retrieve AppRepositoryHashmap u w) = Inr (Str u)"
  by (simp add: shorten_then_retrieve_def service_shorten_eq service_retrieve_eq
      AppRepositoryHashmap_def hashmap_put_eq hashmap_get_def Map_get_def pipe_map_Inr)

lemma shorten_then_retrieve_redis:
  assumes "answered 3 (backend w)"
  shows "fst (shorten_then_retrieve AppRepositoryRedis u w) = Inr (Str u)"
proof -
  let ?h = "slice 7 (rng w (draws w))"
  let ?c = "snd (redis_put ?h u (backend w))"
  have a: "answered (Suc (Suc (Suc 0))) (backend w)"
    using assms by (simp add: numeral_3_eq_3)
  have p: "fst (redis_put ?h u (backend w)) = Inr (Str u)"
    and k: "keyspace ?c = (keyspace (backend w))(?h \<mapsto> u)"
    and a1: "answered (Suc 0) ?c"
    using redis_put_answered [OF a] by simp_all
  have "fst (redis_get ?h ?c) = Inr (Str u)"
    using a1 k by (simp add: redis_get_answered bulk_reply_def)
  then show ?thesis
    using p
    by (simp add: shorten_then_retrieve_def service_shorten_eq service_retrieve_eq
        AppRepositoryRedis_def pipe_map_Inr)
qed

lemma list_all_drop: "list_all P xs \<Longrightarrow> list_all P (drop n xs)"
  by (auto simp: list_all_iff dest: in_set_dropD)

lemma slice_base36_text:
  assumes "base36_text t"
  shows "list_all (\<lambda>c. c \<in> set base36_digits) (slice 7 t)"
proof -
  from assms consider "t = ''0''" | "list_all (\<lambda>c. c \<in> set base36_digits) (drop 2 t)"
    by (auto simp: base36_text_def)
  then show ?thesis
  proof cases
    case 1
    then show ?thesis by (simp add: slice_def)
  next
    case 2
    have "slice 7 t = drop 5 (drop 2 t)" by (simp add: slice_def)
    with 2 show ?thesis by (simp only: list_all_drop)
  qed
qed

section \<open>Round trip\<close>

text \<open>
  Claim C1. For every non-empty string \<open>u\<close>, shortening \<open>u\<close> and then retrieving the hash
  that \<open>shorten\<close> returned yields exactly \<open>u\<close>, on the volatile backend and on the
  durable one. On the durable backend the three commands of the two calls (\<^verbatim>\<open>SET\<close>, \<^verbatim>\<open>GET\<close>
  for \<open>shorten\<close>, \<^verbatim>\<open>GET\<close> for \<open>retrieve\<close>) have to be answered by the store: a rejected
  command makes the call fail instead. The hash may be any text, the empty one included.
\<close>

theorem shorten_retrieve_roundtrip:
  assumes "u \<noteq> []"
  shows "fst (shorten_then_retrieve AppRepositoryHashmap u w) = Inr (Str u) \<and>
         (answered 3 (backend wr) \<longrightarrow>
            fst (shorten_then_retrieve AppRepositoryRedis u wr) = Inr (Str u))"
  by (simp add: shorten_then_retrieve_hashmap shorten_then_retrieve_redis)

theorem shorten_retrieve_roundtrip_witness:
  "''aerabi.com'' \<noteq> [] \<and>
   answered 3 \<lparr>keyspace = Map.empty, faults = [None], issued = []\<rparr> \<and>
   fst (shorten_then_retrieve AppRepositoryHashmap ''aerabi.com''
          \<lparr>rng = scripted [] ''0.0001lnxw29'', draws = 0, backend = new_hashMap\<rparr>)
     = Inr (Str ''aerabi.com'') \<and>
   fst (shorten_then_retrieve AppRepositoryRedis ''aerabi.com''
          \<lparr>rng = scripted [] ''0.0001lnxw29'', draws = 0,
           backend = \<lparr>keyspace = Map.empty, faults = [None], issued = []\<rparr>\<rparr>)
     = Inr (Str ''aerabi.com'')"
proof -
  have u: "''aerabi.com'' \<noteq> []" by simp
  have a: "answered 3 \<lparr>keyspace = Map.empty, faults = [None], issued = []\<rparr>"
    by (simp add: answered_def)
  show ?thesis
    using u a
      shorten_retrieve_roundtrip [OF u,
        of "\<lparr>rng = scripted [] ''0.0001lnxw29'', draws = 0, backend = new_hashMap\<rparr>"
           "\<lparr>rng = scripted [] ''0.0001lnxw29'', draws = 0,
             backend = \<lparr>keyspace = Map.empty, faults = [None], issued = []\<rparr>\<rparr>"]
    by simp
qed

section \<open>The shape of a hash\<close>

text \<open>
  Claim C2, as amended. Every generated hash consists of radix-36 digits (\<^verbatim>\<open>0-9\<close>, \<^verbatim>\<open>a-z\<close>)
  only. Its length is not fixed: it is the length of the text of the random number less
  the seven characters that \<^verbatim>\<open>slice(7)\<close> drops (nothing is left of a text of seven characters
  or fewer), so it changes with the number drawn. Each generation makes one draw. The
  text of the number is taken to have the form that \<open>base36_text\<close> describes.
\<close>

theorem generated_hash_shape:
  assumes "base36_text (rng w (draws w))"
  shows "list_all (\<lambda>c. c \<in> set base36_digits) (fst (generate_hash w)) \<and>
         length (fst (generate_hash w)) = length (rng w (draws w)) - 7 \<and>
         draws (snd (generate_hash w)) = Suc (draws w)"
  using slice_base36_text [OF assms] by (simp add: generate_hash_eq slice_def)

theorem generated_hash_shape_witness:
  "base36_text ''0.0001lnxw29'' \<and>
   fst (generate_hash \<lparr>rng = scripted [] ''0.0001lnxw29'', draws = 0, backend = new_hashMap\<rparr>) = ''nxw29'' \<and>
   list_all (\<lambda>c. c \<in> set base36_digits) ''nxw29'' \<and>
   length ''nxw29'' = length ''0.0001lnxw29'' - 7"
proof -
  have t: "base36_text (rng \<lparr>rng = scripted [] ''0.0001lnxw29'', draws = 0, backend = new_hashMap\<rparr>
                          (draws \<lparr>rng = scripted [] ''0.0001lnxw29'', draws = 0, backend = new_hashMap\<rparr>))"
    by (simp add: base36_text_def base36_digits_def)
  have g: "fst (generate_hash \<lparr>rng = scripted [] ''0.0001lnxw29'', draws = 0, backend = new_hashMap\<rparr>) = ''nxw29''"
    by (simp add: generate_hash_eq slice_def)
  show ?thesis
    using t generated_hash_shape [OF t] by (simp add: g)
qed

text \<open>
  Claim C2 as it is written asks for one length for every invocation. Two successive calls
  of \<open>shorten\<close> in one process refute it. The first draw is the number \<open>1/2\<close>, whose text
  in radix 36 is \<^verbatim>\<open>0.i\<close> (\<open>18/36\<close>): nothing is left after index 7 and the hash is empty.
  The second draw is \<open>1/2^20\<close>, which is \<open>9^10/36^10\<close> and has the text
  \<^verbatim>\<open>0.0001lnxw29\<close>: the hash is \<^verbatim>\<open>nxw29\<close>, of length five. (The hash shown in the
  repository's README, \<^verbatim>\<open>350fzr\<close>, has six characters.)
\<close>

theorem hash_length_fixed_counterexample:
  "base36_text ''0.i'' \<and> base36_text ''0.0001lnxw29'' \<and>
   fst (service_shorten AppRepositoryHashmap ''aerabi.com''
          \<lparr>rng = scripted [''0.i''] ''0.0001lnxw29'', draws = 0, backend = new_hashMap\<rparr>) = Inr [] \<and>
   fst (service_shorten AppRepositoryHashmap ''aerabi.com''
          (snd (service_shorten AppRepositoryHashmap ''aerabi.com''
                  \<lparr>rng = scripted [''0.i''] ''0.0001lnxw29'', draws = 0, backend = new_hashMap\<rparr>)))
     = Inr ''nxw29'' \<and>
   length ([] :: string) \<noteq> length ''nxw29''"
  by (simp add: base36_text_def base36_digits_def service_shorten_eq AppRepositoryHashmap_def
      hashmap_put_eq pipe_map_Inr slice_def)

section \<open>Absent keys\<close>

lemma after_puts_hashmap_other:
  "h \<notin> fst ` set ws \<Longrightarrow> after_puts AppRepositoryHashmap ws m h = m h"
  by (induction ws arbitrary: m) (auto simp: AppRepositoryHashmap_def hashmap_put_eq)

lemma send_keyspace: "keyspace (snd (send cmd c)) = keyspace c"
  by (simp add: send_def split: list.split)

lemma redisClient_get_keyspace: "keyspace (snd (redisClient_get k c)) = keyspace c"
  using send_keyspace [of "GET k" c]
  by (auto simp: redisClient_get_def split: prod.split option.split)

lemma redisClient_set_keyspace_other:
  "h \<noteq> k \<Longrightarrow> keyspace (snd (redisClient_set k v c)) h = keyspace c h"
  using send_keyspace [of "SET k v" c]
  by (auto simp: redisClient_set_def split: prod.split option.split)

lemma redis_put_keyspace_other:
  "h \<noteq> k \<Longrightarrow> keyspace (snd (redis_put k v c)) h = keyspace c h"
  using redisClient_set_keyspace_other [of h k v c]
    redisClient_get_keyspace [of k "snd (redisClient_set k v c)"]
  by (auto simp: redis_put_def split: prod.split sum.split)

lemma after_puts_redis_other:
  "h \<notin> fst ` set ws \<Longrightarrow> keyspace (after_puts AppRepositoryRedis ws c) h = keyspace c h"
  by (induction ws arbitrary: c) (auto simp: AppRepositoryRedis_def redis_put_keyspace_other)

text \<open>
  Claim C3. A hash that was never written is absent, and absence is a value, not an
  error. On the volatile backend, after any sequence of \<open>put\<close> calls on a fresh map, none of
  them for the hash \<open>h\<close>, \<open>get h\<close> and the service's \<open>retrieve h\<close> emit \<^verbatim>\<open>undefined\<close>, leave
  the state as it is, and the value emitted is none of the URLs stored under the other
  keys. On the durable backend the same holds with \<^verbatim>\<open>null\<close> for \<^verbatim>\<open>undefined\<close>, when the key
  was not in the store before and the store answers the \<^verbatim>\<open>GET\<close>.
\<close>

theorem absent_hash_is_no_error:
  assumes "h \<notin> fst ` set ws"
  shows "(let m = after_puts AppRepositoryHashmap ws new_hashMap in
            hashmap_get h m = (Inr Undefined, m) \<and>
            service_retrieve AppRepositoryHashmap h (w\<lparr>backend := m\<rparr>)
              = (Inr Undefined, w\<lparr>backend := m\<rparr>) \<and>
            (\<forall>u \<in> snd ` set ws. fst (hashmap_get h m) \<noteq> Inr (Str u))) \<and>
         (let c' = after_puts AppRepositoryRedis ws c in
            keyspace c h = None \<and> answered 1 c' \<longrightarrow>
              fst (redis_get h c') = Inr Null \<and>
              fst (service_retrieve AppRepositoryRedis h (wr\<lparr>backend := c'\<rparr>)) = Inr Null)"
proof -
  let ?m = "after_puts AppRepositoryHashmap ws new_hashMap"
  have "?m h = None"
    using assms by (simp add: after_puts_hashmap_other new_hashMap_def)
  then have g: "hashmap_get h ?m = (Inr Undefined, ?m)"
    by (simp add: hashmap_get_def Map_get_def)
  then have hm: "hashmap_get h ?m = (Inr Undefined, ?m) \<and>
      service_retrieve AppRepositoryHashmap h (w\<lparr>backend := ?m\<rparr>) = (Inr Undefined, w\<lparr>backend := ?m\<rparr>) \<and>
      (\<forall>u \<in> snd ` set ws. fst (hashmap_get h ?m) \<noteq> Inr (Str u))"
    by (simp add: service_retrieve_eq AppRepositoryHashmap_def)
  let ?c = "after_puts AppRepositoryRedis ws c"
  have rd: "keyspace c h = None \<and> answered 1 ?c \<longrightarrow>
      fst (redis_get h ?c) = Inr Null \<and>
      fst (service_retrieve AppRepositoryRedis h (wr\<lparr>backend := ?c\<rparr>)) = Inr Null"
  proof (intro impI, elim conjE)
    assume k: "keyspace c h = None" and a: "answered 1 ?c"
    have "keyspace ?c h = None"
      using assms k by (simp add: after_puts_redis_other)
    moreover have "answered (Suc 0) ?c" using a by simp
    ultimately have "fst (redis_get h ?c) = Inr Null"
      by (simp add: redis_get_answered bulk_reply_def)
    then show "fst (redis_get h ?c) = Inr Null \<and>
      fst (service_retrieve AppRepositoryRedis h (wr\<lparr>backend := ?c\<rparr>)) = Inr Null"
      by (simp add: service_retrieve_eq AppRepositoryRedis_def)
  qed
  show ?thesis unfolding Let_def using hm rd by blast
qed

theorem absent_hash_is_no_error_witness:
  "''doesnotexist'' \<notin> fst ` set [(''nxw29'', ''aerabi.com'')] \<and>
   keyspace \<lparr>keyspace = Map.empty, faults = [], issued = []\<rparr> ''doesnotexist'' = None \<and>
   answered 1 (after_puts AppRepositoryRedis [(''nxw29'', ''aerabi.com'')]
                 \<lparr>keyspace = Map.empty, faults = [], issued = []\<rparr>) \<and>
   fst (hashmap_get ''doesnotexist''
          (after_puts AppRepositoryHashmap [(''nxw29'', ''aerabi.com'')] new_hashMap)) = Inr Undefined \<and>
   fst (hashmap_get ''doesnotexist''
          (after_puts AppRepositoryHashmap [(''nxw29'', ''aerabi.com'')] new_hashMap))
     \<noteq> Inr (Str ''aerabi.com'') \<and>
   fst (redis_get ''doesnotexist''
          (after_puts AppRepositoryRedis [(''nxw29'', ''aerabi.com'')]
             \<lparr>keyspace = Map.empty, faults = [], issued = []\<rparr>)) = Inr Null"
proof -
  have h: "''doesnotexist'' \<notin> fst ` set [(''nxw29'', ''aerabi.com'')]" by simp
  have k: "keyspace \<lparr>keyspace = Map.empty, faults = [], issued = []\<rparr> ''doesnotexist'' = None"
    by simp
  have a: "answered 1 (after_puts AppRepositoryRedis [(''nxw29'', ''aerabi.com'')]
                 \<lparr>keyspace = Map.empty, faults = [], issued = []\<rparr>)"
    by (simp add: AppRepositoryRedis_def redis_put_def redisClient_set_def redisClient_get_def
        send_def answered_def)
  show ?thesis
    using h k a
      absent_hash_is_no_error [OF h,
        of "\<lparr>rng = scripted [] ''0'', draws = 0, backend = new_hashMap\<rparr>"
           "\<lparr>keyspace = Map.empty, faults = [], issued = []\<rparr>"
           "\<lparr>rng = scripted [] ''0'', draws = 0,
             backend = \<lparr>keyspace = Map.empty, faults = [], issued = []\<rparr>\<rparr>"]
    by (simp add: Let_def)
qed

section \<open>Overwriting\<close>

text \<open>
  Claim C4. Two \<open>put\<close> calls for the same hash, with the URLs \<open>u1\<close> and then \<open>u2\<close>, leave
  the backend in a state where \<open>get\<close> answers \<open>u2\<close>; the state is the one that the second
  \<open>put\<close> alone would have left, so nothing of the first mapping remains. This holds for
  the volatile backend always, and for the durable backend when its five commands are
  answered.
\<close>

theorem last_write_wins:
  "fst (hashmap_get h (snd (hashmap_put h u2 (snd (hashmap_put h u1 m))))) = Inr (Str u2) \<and>
   snd (hashmap_put h u2 (snd (hashmap_put h u1 m))) = snd (hashmap_put h u2 m) \<and>
   (answered 5 c \<longrightarrow>
      fst (redis_get h (snd (redis_put h u2 (snd (redis_put h u1 c))))) = Inr (Str u2) \<and>
      keyspace (snd (redis_put h u2 (snd (redis_put h u1 c)))) = keyspace (snd (redis_put h u2 c)))"
proof -
  have hm: "fst (hashmap_get h (snd (hashmap_put h u2 (snd (hashmap_put h u1 m))))) = Inr (Str u2) \<and>
   snd (hashmap_put h u2 (snd (hashmap_put h u1 m))) = snd (hashmap_put h u2 m)"
    by (simp add: hashmap_put_eq hashmap_get_def Map_get_def)
  have rd: "fst (redis_get h (snd (redis_put h u2 (snd (redis_put h u1 c))))) = Inr (Str u2) \<and>
      keyspace (snd (redis_put h u2 (snd (redis_put h u1 c)))) = keyspace (snd (redis_put h u2 c))"
    if a: "answered 5 c"
  proof -
    let ?c1 = "snd (redis_put h u1 c)"
    let ?c2 = "snd (redis_put h u2 ?c1)"
    have a5: "answered (Suc (Suc (Suc (Suc (Suc 0))))) c"
      using a by (simp add: eval_nat_numeral)
    have a3: "answered (Suc (Suc (Suc 0))) ?c1" and k1: "keyspace ?c1 = (keyspace c)(h \<mapsto> u1)"
      using redis_put_answered [OF a5] by simp_all
    have a1: "answered (Suc 0) ?c2" and k2: "keyspace ?c2 = (keyspace ?c1)(h \<mapsto> u2)"
      using redis_put_answered [OF a3] by simp_all
    have k3: "keyspace (snd (redis_put h u2 c)) = (keyspace c)(h \<mapsto> u2)"
      using redis_put_answered(2) [OF a5] by simp
    show ?thesis
      using a1 k1 k2 k3 by (simp add: redis_get_answered bulk_reply_def)
  qed
  from hm rd show ?thesis by blast
qed

theorem last_write_wins_witness:
  "answered 5 \<lparr>keyspace = Map.empty, faults = [], issued = []\<rparr> \<and>
   fst (hashmap_get ''nxw29''
          (snd (hashmap_put ''nxw29'' ''docker.com'' (snd (hashmap_put ''nxw29'' ''aerabi.com'' new_hashMap)))))
     = Inr (Str ''docker.com'') \<and>
   fst (redis_get ''nxw29''
          (snd (redis_put ''nxw29'' ''docker.com''
                  (snd (redis_put ''nxw29'' ''aerabi.com''
                          \<lparr>keyspace = Map.empty, faults = [], issued = []\<rparr>)))))
     = Inr (Str ''docker.com'')"
proof -
  have a: "answered 5 \<lparr>keyspace = Map.empty, faults = [], issued = []\<rparr>"
    by (simp add: answered_def)
  show ?thesis
    using a
      last_write_wins [of "''nxw29''" "''docker.com''" "''aerabi.com''" new_hashMap
        "\<lparr>keyspace = Map.empty, faults = [], issued = []\<rparr>"]
    by blast
qed

section \<open>What \<open>put\<close> returns\<close>









section \<open>A request without a URL\<close>

text \<open>
  Claim C6. The \<^verbatim>\<open>shorten\<close> endpoint called without a \<^verbatim>\<open>url\<close> value answers the error payload
  with its message and \<^verbatim>\<open>code: 400\<close>, as an emitted value. No hash is generated (no draw is
  made, and the answer is no \<open>ShortenResponse\<close>) and the backend is not touched: the world
  stays as it was and a recording repository has recorded no call. A \<^verbatim>\<open>null\<close> value is
  treated alike.
\<close>

theorem shorten_without_url:
  "controller_shorten repo Undefined w = (Inr (ErrorResponse no_url_message 400), w) \<and>
   controller_shorten (recording repo) Undefined wrec = (Inr (ErrorResponse no_url_message 400), wrec) \<and>
   draws (snd (controller_shorten repo Undefined w)) = draws w \<and>
   backend (snd (controller_shorten repo Undefined w)) = backend w \<and>
   fst (backend (snd (controller_shorten (recording repo) Undefined wrec))) = fst (backend wrec) \<and>
   fst (controller_shorten repo Undefined w) \<noteq> Inr (ShortenResponse h) \<and>
   controller_shorten repo Null w = (Inr (ErrorResponse no_url_message 400), w)"
  by simp

section \<open>A failing write\<close>

lemma recording_put:
  "put (recording repo) h u (calls, s) = (fst (put repo h u s), (calls @ [PutCall h u], snd (put repo h u s)))"
  by (simp add: recording_def split: prod.split)

text \<open>
  Claim C7. For any repository and any URL: if the \<open>put\<close> that \<open>shorten\<close> makes fails with
  the error \<open>e\<close>, then \<open>shorten\<close> fails with the same \<open>e\<close> and returns no hash; the state is
  the one that this single \<open>put\<close> left, and a recording repository shows exactly one call
  more than before, that \<open>put\<close>: there is no second attempt.
\<close>

theorem put_failure_propagates:
  assumes "put repo (slice 7 (g n)) u s = (Inl e, s')"
  shows "service_shorten repo u \<lparr>rng = g, draws = n, backend = s\<rparr>
           = (Inl e, \<lparr>rng = g, draws = Suc n, backend = s'\<rparr>) \<and>
         service_shorten (recording repo) u \<lparr>rng = g, draws = n, backend = (calls, s)\<rparr>
           = (Inl e, \<lparr>rng = g, draws = Suc n, backend = (calls @ [PutCall (slice 7 (g n)) u], s')\<rparr>)"
  using assms by (simp add: service_shorten_eq recording_put pipe_map_Inl)

theorem put_failure_propagates_witness:
  "put AppRepositoryRedis (slice 7 (scripted [] ''0.0001lnxw29'' 0)) ''aerabi.com''
       \<lparr>keyspace = Map.empty, faults = [None, Some (Error ''Socket closed unexpectedly'')], issued = []\<rparr>
     = (Inl (Error ''Socket closed unexpectedly''),
        \<lparr>keyspace = [''nxw29'' \<mapsto> ''aerabi.com''], faults = [],
         issued = [SET ''nxw29'' ''aerabi.com'', GET ''nxw29'']\<rparr>) \<and>
   service_shorten (recording AppRepositoryRedis) ''aerabi.com''
       \<lparr>rng = scripted [] ''0.0001lnxw29'', draws = 0,
        backend = ([], \<lparr>keyspace = Map.empty,
                       faults = [None, Some (Error ''Socket closed unexpectedly'')], issued = []\<rparr>)\<rparr>
     = (Inl (Error ''Socket closed unexpectedly''),
        \<lparr>rng = scripted [] ''0.0001lnxw29'', draws = Suc 0,
         backend = ([PutCall ''nxw29'' ''aerabi.com''],
                    \<lparr>keyspace = [''nxw29'' \<mapsto> ''aerabi.com''], faults = [],
                     issued = [SET ''nxw29'' ''aerabi.com'', GET ''nxw29'']\<rparr>)\<rparr>)"
proof -
  have p: "put AppRepositoryRedis (slice 7 (scripted [] ''0.0001lnxw29'' 0)) ''aerabi.com''
       \<lparr>keyspace = Map.empty, faults = [None, Some (Error ''Socket closed unexpectedly'')], issued = []\<rparr>
     = (Inl (Error ''Socket closed unexpectedly''),
        \<lparr>keyspace = [''nxw29'' \<mapsto> ''aerabi.com''], faults = [],
         issued = [SET ''nxw29'' ''aerabi.com'', GET ''nxw29'']\<rparr>)"
    by (simp add: AppRepositoryRedis_def redis_put_def redisClient_set_def redisClient_get_def
        send_def slice_def)
  have h: "slice 7 (scripted [] ''0.0001lnxw29'' 0) = ''nxw29''"
    by (simp add: slice_def)
  from put_failure_propagates
         [where repo = AppRepositoryRedis and g = "scripted [] ''0.0001lnxw29''" and n = 0
            and calls = "[]", OF p] p
  show ?thesis
    by (simp only: h append_Nil simp_thms)
qed

section \<open>The write and read-back of the durable backend\<close>



section \<open>Redirecting an absent hash\<close>

text \<open>
  Claim C9. For a hash without a mapping, \<^verbatim>\<open>retrieveAndRedirect\<close> completes with an emitted
  value, not an error: the object \<^verbatim>\<open>{ url }\<close> whose \<^verbatim>\<open>url\<close> is the absent value of the backend,
  \<^verbatim>\<open>undefined\<close> for the volatile backend and \<^verbatim>\<open>null\<close> for the durable one (when the store
  answers the \<^verbatim>\<open>GET\<close>). Nothing on the way turns absence into an error.
\<close>

theorem absent_key_reaches_redirect:
  "(backend w h = None \<longrightarrow>
      retrieveAndRedirect AppRepositoryHashmap h w = (Inr (RedirectResponse Undefined), w)) \<and>
   (keyspace (backend wr) h = None \<and> answered 1 (backend wr) \<longrightarrow>
      fst (retrieveAndRedirect AppRepositoryRedis h wr) = Inr (RedirectResponse Null) \<and>
      keyspace (backend (snd (retrieveAndRedirect AppRepositoryRedis h wr))) = keyspace (backend wr))"
proof -
  have hm: "retrieveAndRedirect AppRepositoryHashmap h w = (Inr (RedirectResponse Undefined), w)"
    if "backend w h = None"
    using that
    by (simp add: retrieveAndRedirect_def service_retrieve_eq AppRepositoryHashmap_def
        hashmap_get_def Map_get_def pipe_map_Inr)
  have rd: "fst (retrieveAndRedirect AppRepositoryRedis h wr) = Inr (RedirectResponse Null) \<and>
      keyspace (backend (snd (retrieveAndRedirect AppRepositoryRedis h wr))) = keyspace (backend wr)"
    if k: "keyspace (backend wr) h = None" and a: "answered 1 (backend wr)"
  proof -
    from a have "answered (Suc 0) (backend wr)" by simp
    then show ?thesis
      using k
      by (simp add: retrieveAndRedirect_def service_retrieve_eq AppRepositoryRedis_def
          redis_get_def redisClient_get_answered bulk_reply_def pipe_map_Inr)
  qed
  from hm rd show ?thesis by blast
qed

theorem absent_key_reaches_redirect_witness:
  "backend \<lparr>rng = scripted [] ''0'', draws = 0, backend = new_hashMap\<rparr> ''doesnotexist'' = None \<and>
   retrieveAndRedirect AppRepositoryHashmap ''doesnotexist''
       \<lparr>rng = scripted [] ''0'', draws = 0, backend = new_hashMap\<rparr>
     = (Inr (RedirectResponse Undefined), \<lparr>rng = scripted [] ''0'', draws = 0, backend = new_hashMap\<rparr>) \<and>
   keyspace \<lparr>keyspace = [''nxw29'' \<mapsto> ''aerabi.com''], faults = [], issued = []\<rparr> ''doesnotexist'' = None \<and>
   answered 1 \<lparr>keyspace = [''nxw29'' \<mapsto> ''aerabi.com''], faults = [], issued = []\<rparr> \<and>
   fst (retrieveAndRedirect AppRepositoryRedis ''doesnotexist''
          \<lparr>rng = scripted [] ''0'', draws = 0,
           backend = \<lparr>keyspace = [''nxw29'' \<mapsto> ''aerabi.com''], faults = [], issued = []\<rparr>\<rparr>)
     = Inr (RedirectResponse Null)"
proof -
  let ?w = "\<lparr>rng = scripted [] ''0'', draws = 0, backend = new_hashMap\<rparr>"
  let ?c = "\<lparr>keyspace = [''nxw29'' \<mapsto> ''aerabi.com''], faults = [], issued = []\<rparr>"
  let ?wr = "\<lparr>rng = scripted [] ''0'', draws = 0, backend = ?c\<rparr>"
  have b: "backend ?w ''doesnotexist'' = None" by (simp add: new_hashMap_def)
  have k: "keyspace ?c ''doesnotexist'' = None" by simp
  have a: "answered 1 ?c" by (simp add: answered_def)
  have k': "keyspace (backend ?wr) ''doesnotexist'' = None" and a': "answered 1 (backend ?wr)"
    using k a by simp_all
  from absent_key_reaches_redirect [of ?w "''doesnotexist''" ?wr] b k' a'
  have "retrieveAndRedirect AppRepositoryHashmap ''doesnotexist'' ?w = (Inr (RedirectResponse Undefined), ?w) \<and>
    fst (retrieveAndRedirect AppRepositoryRedis ''doesnotexist'' ?wr) = Inr (RedirectResponse Null)"
    by blast
  with b k a show ?thesis by blast
qed

section \<open>A request with an empty URL\<close>

text \<open>
  Claim C10. The \<^verbatim>\<open>shorten\<close> endpoint called with the empty string as \<^verbatim>\<open>url\<close> answers what
  it answers without a \<^verbatim>\<open>url\<close>: the error payload with \<^verbatim>\<open>code: 400\<close>. No hash is generated
  and nothing is written to the backend.
\<close>

theorem shorten_with_empty_url:
  "controller_shorten repo (Str []) w = (Inr (ErrorResponse no_url_message 400), w) \<and>
   controller_shorten repo (Str []) w = controller_shorten repo Undefined w \<and>
   controller_shorten (recording repo) (Str []) wrec = (Inr (ErrorResponse no_url_message 400), wrec) \<and>
   draws (snd (controller_shorten repo (Str []) w)) = draws w \<and>
   backend (snd (controller_shorten repo (Str []) w)) = backend w \<and>
   fst (controller_shorten repo (Str []) w) \<noteq> Inr (ShortenResponse h)"
  by simp

end
